theory Spec2Isabelle
  imports Main
begin

section \<open>Syntax nodes\<close>

text \<open>
  The evaluator of \<^verbatim>\<open>source-1-syntactic-analysis.js\<close> works on the tagged lists
  of the parser. Numbers, strings and booleans represent themselves
  (\<^verbatim>\<open>is_self_evaluating\<close>); every other node is a list whose head is its tag.
  A node that no predicate of \<^verbatim>\<open>analyze\<close> recognises is \<open>Unknown_node\<close>.
  Numbers are the host's; the type \<open>'n\<close> keeps them abstract.
  The parameters of a function definition are name nodes; the model keeps the
  names (\<^verbatim>\<open>map(name_of_name, function_parameters(fun))\<close>).
\<close>

datatype 'n literal = Num_lit 'n | Str_lit string | Bool_lit bool

datatype 'n node =
    Self_evaluating "'n literal"
  | Name string
  | Constant_declaration string "'n node"
  | Conditional_expression "'n node" "'n node" "'n node"
  | Function_definition "string list" "'n node"
  | Sequence "'n node list"
  | Block "'n node"
  | Return_statement "'n node"
  | Application "'n node" "'n node list"
  | Unknown_node

section \<open>Executables, values, environments\<close>

text \<open>
  \<^verbatim>\<open>analyze\<close> returns a closure \<^verbatim>\<open>env => ...\<close>. Each closure of the source is
  one constructor of \<open>exec\<close>, holding the variables the closure captures;
  \<open>execute\<close> below is the body of these closures.
\<close>

datatype 'n exec =
    Self_evaluating_fun "'n literal"
  | Name_fun string
  | Constant_declaration_fun string "'n exec"
  | Conditional_fun "'n exec" "'n exec" "'n exec"
  | Function_definition_fun "string list" "string list" "'n exec"
  | Empty_sequence_fun
  | Sequentially "'n exec" "'n exec"
  | Block_fun "string list" "'n exec"
  | Return_fun "'n exec"
  | Application_fun "'n exec" "'n exec list"

text \<open>
  An environment is a chain of frames, innermost first. Frames are mutable and
  shared (\<^verbatim>\<open>set_head\<close> in \<^verbatim>\<open>set_name_value\<close>), so a frame lives in a store and
  an environment is the list of the addresses of its frames.
\<close>

type_synonym env = "nat list"

datatype 'n val =
    Lit "'n literal"
  | Undefined
  | No_value_yet
  | Primitive string
  | Compound_function "string list" "string list" "'n exec" env
  | Return_value "'n val"

type_synonym 'n frame = "string list \<times> 'n val list"
type_synonym 'n store = "'n frame list"

datatype error =
    Unbound_name string
  | Name_used_before_declaration string
  | Multiple_declarations string
  | Too_many_arguments
  | Too_few_arguments
  | Unknown_statement_type
  | Unknown_function_type
  | Return_not_allowed
  | Name_not_found
  | Host_error

text \<open>The result of running an executable: the fuel ran out, an error was raised,
  or a value was returned.\<close>

datatype 'a outcome = Timeout | Error error | Ok 'a

section \<open>Analysis\<close>

fun insert_all :: "string list \<Rightarrow> string list \<Rightarrow> error + string list" where
  "insert_all [] ys = Inr ys"
| "insert_all (x # xs) ys =
     (if x \<notin> set ys
      then (case insert_all xs ys of Inl e \<Rightarrow> Inl e | Inr r \<Rightarrow> Inr (x # r))
      else Inl (Multiple_declarations x))"

fun local_names :: "'n node \<Rightarrow> error + string list" where
  "local_names (Sequence stmts) =
     (case stmts of
        [] \<Rightarrow> Inr []
      | s # rest \<Rightarrow>
          (case local_names s of
             Inl e \<Rightarrow> Inl e
           | Inr xs \<Rightarrow>
               (case local_names (Sequence rest) of
                  Inl e \<Rightarrow> Inl e
                | Inr ys \<Rightarrow> insert_all xs ys)))"
| "local_names (Constant_declaration name v) = Inr [name]"
| "local_names stmt = Inr []"

fun loop :: "'n exec \<Rightarrow> 'n exec list \<Rightarrow> 'n exec" where
  "loop first_fun [] = first_fun"
| "loop first_fun (f # rest_funs) = loop (Sequentially first_fun f) rest_funs"

fun analyze :: "'n node \<Rightarrow> error + 'n exec"
  and analyze_sequence :: "'n node list \<Rightarrow> error + 'n exec"
  and map_analyze :: "'n node list \<Rightarrow> error + 'n exec list" where
  "analyze (Self_evaluating l) = Inr (Self_evaluating_fun l)"
| "analyze (Name x) = Inr (Name_fun x)"
| "analyze (Constant_declaration name v) =
     (case analyze v of Inl e \<Rightarrow> Inl e | Inr vfun \<Rightarrow> Inr (Constant_declaration_fun name vfun))"
| "analyze (Conditional_expression p c a) =
     (case analyze p of
        Inl e \<Rightarrow> Inl e
      | Inr pfun \<Rightarrow>
          (case analyze c of
             Inl e \<Rightarrow> Inl e
           | Inr cfun \<Rightarrow>
               (case analyze a of
                  Inl e \<Rightarrow> Inl e
                | Inr afun \<Rightarrow> Inr (Conditional_fun pfun cfun afun))))"
| "analyze (Function_definition vars body) =
     (case local_names body of
        Inl e \<Rightarrow> Inl e
      | Inr locals \<Rightarrow>
          (case analyze body of
             Inl e \<Rightarrow> Inl e
           | Inr body_fun \<Rightarrow> Inr (Function_definition_fun vars locals body_fun)))"
| "analyze (Sequence stmts) = analyze_sequence stmts"
| "analyze (Block body) =
     (case local_names body of
        Inl e \<Rightarrow> Inl e
      | Inr locals \<Rightarrow>
          (case analyze body of
             Inl e \<Rightarrow> Inl e
           | Inr body_func \<Rightarrow> Inr (Block_fun locals body_func)))"
| "analyze (Return_statement e) =
     (case analyze e of Inl err \<Rightarrow> Inl err | Inr retval_func \<Rightarrow> Inr (Return_fun retval_func))"
| "analyze (Application f args) =
     (case analyze f of
        Inl e \<Rightarrow> Inl e
      | Inr function_func \<Rightarrow>
          (case map_analyze args of
             Inl e \<Rightarrow> Inl e
           | Inr arg_funcs \<Rightarrow> Inr (Application_fun function_func arg_funcs)))"
| "analyze Unknown_node = Inl Unknown_statement_type"
| "analyze_sequence stmts =
     (case map_analyze stmts of
        Inl e \<Rightarrow> Inl e
      | Inr funs \<Rightarrow>
          (case funs of
             [] \<Rightarrow> Inr Empty_sequence_fun
           | f # fs \<Rightarrow> Inr (loop f fs)))"
| "map_analyze [] = Inr []"
| "map_analyze (s # stmts) =
     (case analyze s of
        Inl e \<Rightarrow> Inl e
      | Inr f \<Rightarrow>
          (case map_analyze stmts of
             Inl e \<Rightarrow> Inl e
           | Inr fs \<Rightarrow> Inr (f # fs)))"

section \<open>Environments\<close>

text \<open>
  \<^verbatim>\<open>extend_environment\<close> allocates the frame; its address is the next free one.
  The source pairs every value with the flag \<^verbatim>\<open>is_variable = false\<close>, which
  nothing reads; the model keeps the value.
\<close>

definition extend_environment ::
  "string list \<Rightarrow> 'n val list \<Rightarrow> env \<Rightarrow> 'n store \<Rightarrow> error + (env \<times> 'n store)" where
  "extend_environment names vals base_env st =
     (if length names = length vals then Inr (length st # base_env, st @ [(names, vals)])
      else if length names < length vals then Inl Too_many_arguments
      else Inl Too_few_arguments)"

text \<open>
  \<^verbatim>\<open>scan\<close> of \<^verbatim>\<open>lookup_name_value\<close>: the last argument is the result of
  \<^verbatim>\<open>env_loop(enclosing_environment(env))\<close>, taken when the names run out.
  \<^verbatim>\<open>head\<close> and \<^verbatim>\<open>tail\<close> of an empty list of values raise in the host.
  In the source a frame is a reference, so an address outside the store cannot arise;
  the model raises the host's error there.
\<close>

fun scan :: "string \<Rightarrow> string list \<Rightarrow> 'n val list \<Rightarrow> error + 'n val \<Rightarrow> error + 'n val" where
  "scan name [] vals enclosing = enclosing"
| "scan name (n # names) [] enclosing = Inl Host_error"
| "scan name (n # names) (v # vals) enclosing =
     (if name = n then Inr v else scan name names vals enclosing)"

fun env_loop :: "string \<Rightarrow> env \<Rightarrow> 'n store \<Rightarrow> error + 'n val" where
  "env_loop name [] st = Inl (Unbound_name name)"
| "env_loop name (a # env) st =
     (if a < length st
      then (case scan name (fst (st ! a)) (snd (st ! a)) (env_loop name env st) of
              Inl e \<Rightarrow> Inl e
            | Inr v \<Rightarrow>
                if v = No_value_yet then Inl (Name_used_before_declaration name)
                else Inr v)
      else Inl Host_error)"

definition lookup_name_value :: "string \<Rightarrow> env \<Rightarrow> 'n store \<Rightarrow> error + 'n val" where
  "lookup_name_value name env st = env_loop name env st"

text \<open>\<^verbatim>\<open>scan\<close> of \<^verbatim>\<open>set_name_value\<close>: the values of the frame after \<^verbatim>\<open>set_head\<close>.\<close>

fun scan_set :: "string \<Rightarrow> 'n val \<Rightarrow> string list \<Rightarrow> 'n val list \<Rightarrow> error + 'n val list" where
  "scan_set name val [] vals = Inl Name_not_found"
| "scan_set name val (n # names) [] = Inl Host_error"
| "scan_set name val (n # names) (v # vals) =
     (if name = n then Inr (val # vals)
      else (case scan_set name val names vals of Inl e \<Rightarrow> Inl e | Inr vs \<Rightarrow> Inr (v # vs)))"

definition set_name_value :: "string \<Rightarrow> 'n val \<Rightarrow> env \<Rightarrow> 'n store \<Rightarrow> error + 'n store" where
  "set_name_value name val env st =
     (case env of
        [] \<Rightarrow> Inl Host_error
      | a # enclosing \<Rightarrow>
          if a < length st
          then (case scan_set name val (fst (st ! a)) (snd (st ! a)) of
                  Inl e \<Rightarrow> Inl e
                | Inr vs \<Rightarrow> Inr (st[a := (fst (st ! a), vs)]))
          else Inl Host_error)"

section \<open>Execution\<close>

definition is_true :: "'n val \<Rightarrow> bool" where
  "is_true x = (x = Lit (Bool_lit True))"

fun is_return_value :: "'n val \<Rightarrow> bool" where
  "is_return_value (Return_value content) = True"
| "is_return_value v = False"

text \<open>
  The first argument is \<^verbatim>\<open>apply_in_underlying_javascript\<close>: the host's application
  of a primitive, named as in \<^verbatim>\<open>primitive_functions\<close>, to the list of arguments.
  A primitive returns a value or raises; what \<^verbatim>\<open>display\<close> prints is not modelled.
  The fuel bounds the depth of the calls of compound functions, the only place where
  the source can recurse without end; \<open>Timeout\<close> is the run that needs more.
\<close>

function (sequential)
  execute :: "(string \<Rightarrow> 'n val list \<Rightarrow> error + 'n val) \<Rightarrow> nat \<Rightarrow> 'n exec \<Rightarrow> env \<Rightarrow> 'n store
                \<Rightarrow> ('n val \<times> 'n store) outcome"
  and map_execute :: "(string \<Rightarrow> 'n val list \<Rightarrow> error + 'n val) \<Rightarrow> nat \<Rightarrow> 'n exec list \<Rightarrow> env
                \<Rightarrow> 'n store \<Rightarrow> ('n val list \<times> 'n store) outcome"
  and execute_application :: "(string \<Rightarrow> 'n val list \<Rightarrow> error + 'n val) \<Rightarrow> nat \<Rightarrow> 'n val
                \<Rightarrow> 'n val list \<Rightarrow> 'n store \<Rightarrow> ('n val \<times> 'n store) outcome" where
  "execute ap k (Self_evaluating_fun l) env st = Ok (Lit l, st)"
| "execute ap k (Name_fun x) env st =
     (case lookup_name_value x env st of Inl e \<Rightarrow> Error e | Inr v \<Rightarrow> Ok (v, st))"
| "execute ap k (Constant_declaration_fun name vfun) env st =
     (case execute ap k vfun env st of
        Timeout \<Rightarrow> Timeout
      | Error e \<Rightarrow> Error e
      | Ok (v, st1) \<Rightarrow>
          (case set_name_value name v env st1 of
             Inl e \<Rightarrow> Error e
           | Inr st2 \<Rightarrow> Ok (Undefined, st2)))"
| "execute ap k (Conditional_fun pfun cfun afun) env st =
     (case execute ap k pfun env st of
        Timeout \<Rightarrow> Timeout
      | Error e \<Rightarrow> Error e
      | Ok (p, st1) \<Rightarrow>
          if is_true p then execute ap k cfun env st1 else execute ap k afun env st1)"
| "execute ap k (Function_definition_fun vars locals body_fun) env st =
     Ok (Compound_function vars locals body_fun env, st)"
| "execute ap k Empty_sequence_fun env st = Ok (Undefined, st)"
| "execute ap k (Sequentially fun1 fun2) env st =
     (case execute ap k fun1 env st of
        Timeout \<Rightarrow> Timeout
      | Error e \<Rightarrow> Error e
      | Ok (fun1_val, st1) \<Rightarrow>
          if is_return_value fun1_val then Ok (fun1_val, st1)
          else execute ap k fun2 env st1)"
| "execute ap k (Block_fun locals body_func) env st =
     (case extend_environment locals (map (\<lambda>x. No_value_yet) locals) env st of
        Inl e \<Rightarrow> Error e
      | Inr (env1, st1) \<Rightarrow> execute ap k body_func env1 st1)"
| "execute ap k (Return_fun retval_func) env st =
     (case execute ap k retval_func env st of
        Timeout \<Rightarrow> Timeout
      | Error e \<Rightarrow> Error e
      | Ok (v, st1) \<Rightarrow> Ok (Return_value v, st1))"
| "execute ap k (Application_fun function_func arg_funcs) env st =
     (case execute ap k function_func env st of
        Timeout \<Rightarrow> Timeout
      | Error e \<Rightarrow> Error e
      | Ok (f, st1) \<Rightarrow>
          (case map_execute ap k arg_funcs env st1 of
             Timeout \<Rightarrow> Timeout
           | Error e \<Rightarrow> Error e
           | Ok (args, st2) \<Rightarrow> execute_application ap k f args st2))"
| "map_execute ap k [] env st = Ok ([], st)"
| "map_execute ap k (arg_func # arg_funcs) env st =
     (case execute ap k arg_func env st of
        Timeout \<Rightarrow> Timeout
      | Error e \<Rightarrow> Error e
      | Ok (v, st1) \<Rightarrow>
          (case map_execute ap k arg_funcs env st1 of
             Timeout \<Rightarrow> Timeout
           | Error e \<Rightarrow> Error e
           | Ok (vs, st2) \<Rightarrow> Ok (v # vs, st2)))"
| "execute_application ap k (Primitive impl) args st =
     (case ap impl args of Inl e \<Rightarrow> Error e | Inr v \<Rightarrow> Ok (v, st))"
| "execute_application ap k (Compound_function parameters locals body fenv) args st =
     (case insert_all parameters locals of
        Inl e \<Rightarrow> Error e
      | Inr names \<Rightarrow>
          (case extend_environment names (args @ map (\<lambda>x. No_value_yet) locals) fenv st of
             Inl e \<Rightarrow> Error e
           | Inr (env1, st1) \<Rightarrow>
               (case k of
                  0 \<Rightarrow> Timeout
                | Suc k' \<Rightarrow>
                    (case execute ap k' body env1 st1 of
                       Timeout \<Rightarrow> Timeout
                     | Error e \<Rightarrow> Error e
                     | Ok (result, st2) \<Rightarrow>
                         (case result of
                            Return_value content \<Rightarrow> Ok (content, st2)
                          | _ \<Rightarrow> Ok (Undefined, st2))))))"
| "execute_application ap k f args st = Error Unknown_function_type"
  by pat_completeness auto
termination
  by (relation "inv_image (less_than <*lex*> less_than)
        (\<lambda>x. case x of
               Inl (ap, k, f, env, st) \<Rightarrow> (k, Suc (size f))
             | Inr (Inl (ap, k, fs, env, st)) \<Rightarrow> (k, Suc (size_list size fs))
             | Inr (Inr (ap, k, f, args, st)) \<Rightarrow> (k, 0))")
     auto

definition evaluate ::
  "(string \<Rightarrow> 'n val list \<Rightarrow> error + 'n val) \<Rightarrow> nat \<Rightarrow> 'n node \<Rightarrow> env \<Rightarrow> 'n store
     \<Rightarrow> ('n val \<times> 'n store) outcome" where
  "evaluate ap k exp env st =
     (case analyze exp of Inl e \<Rightarrow> Error e | Inr f \<Rightarrow> execute ap k f env st)"

section \<open>The global environment and the top level\<close>

definition the_empty_environment :: env where
  "the_empty_environment = []"

text \<open>The names of \<^verbatim>\<open>primitive_functions\<close>; the value of each is the primitive of
  that name.\<close>

definition primitive_functions :: "string list" where
  "primitive_functions =
     [''display'', ''error'', ''+'', ''-'', ''*'', ''/'', ''%'', ''==='', ''!=='',
      ''<'', ''<='', ''>'', ''>='', ''!'']"

text \<open>\<^verbatim>\<open>math_PI\<close> is a number of the host and a parameter here.\<close>

definition primitive_constants :: "'n \<Rightarrow> (string \<times> 'n val) list" where
  "primitive_constants math_PI =
     [(''undefined'', Undefined), (''math_PI'', Lit (Num_lit math_PI))]"

definition setup_environment :: "'n \<Rightarrow> error + (env \<times> 'n store)" where
  "setup_environment math_PI =
     extend_environment
       (primitive_functions @ map fst (primitive_constants math_PI))
       (map Primitive primitive_functions @ map snd (primitive_constants math_PI))
       the_empty_environment []"

definition eval_toplevel ::
  "(string \<Rightarrow> 'n val list \<Rightarrow> error + 'n val) \<Rightarrow> 'n \<Rightarrow> nat \<Rightarrow> 'n node \<Rightarrow> 'n val outcome" where
  "eval_toplevel ap math_PI k stmt =
     (case setup_environment math_PI of
        Inl e \<Rightarrow> Error e
      | Inr (the_global_environment, st) \<Rightarrow>
          (case evaluate ap k (Block stmt) the_global_environment st of
             Timeout \<Rightarrow> Timeout
           | Error e \<Rightarrow> Error e
           | Ok (v, st1) \<Rightarrow>
               if is_return_value v then Error Return_not_allowed else Ok v))"

section \<open>Notions of the specification\<close>

text \<open>
  The sequence as the specification words it: the executables run left to right,
  the value is the last one's, and the first Return Value marker ends the run and
  is the value. The empty sequence yields the undefined value.
\<close>

fun sequence_spec ::
  "(string \<Rightarrow> 'n val list \<Rightarrow> error + 'n val) \<Rightarrow> nat \<Rightarrow> 'n exec list \<Rightarrow> env \<Rightarrow> 'n store
     \<Rightarrow> ('n val \<times> 'n store) outcome" where
  "sequence_spec ap k [] env st = Ok (Undefined, st)"
| "sequence_spec ap k [f] env st = execute ap k f env st"
| "sequence_spec ap k (f # g # fs) env st =
     (case execute ap k f env st of
        Timeout \<Rightarrow> Timeout
      | Error e \<Rightarrow> Error e
      | Ok (v, st1) \<Rightarrow>
          if is_return_value v then Ok (v, st1) else sequence_spec ap k (g # fs) env st1)"

text \<open>
  The names of the constant declarations among the direct statements of a scope
  (outside any nested block or function), with their repetitions.
\<close>

fun declared_names :: "'n node \<Rightarrow> string list" where
  "declared_names (Sequence stmts) = concat (map declared_names stmts)"
| "declared_names (Constant_declaration name v) = [name]"
| "declared_names stmt = []"

text \<open>
  The grammar of the header of the source file (\<^verbatim>\<open>stmt\<close>, \<^verbatim>\<open>expr\<close>) on the nodes:
  an expression is a literal, a name, a conditional of expressions, a function
  definition or an application; a statement is a constant declaration, a sequence, a
  block, a return statement of an expression, or an expression. The body of a function
  definition is a statement (the parser wraps the expression of a lambda in a return
  statement).
\<close>

fun expression :: "'n node \<Rightarrow> bool" and statement :: "'n node \<Rightarrow> bool" where
  "expression (Self_evaluating l) = True"
| "expression (Name x) = True"
| "expression (Conditional_expression p c a) = (expression p \<and> expression c \<and> expression a)"
| "expression (Function_definition vars body) = statement body"
| "expression (Application f args) = (expression f \<and> list_all expression args)"
| "expression stmt = False"
| "statement (Constant_declaration name v) = expression v"
| "statement (Sequence stmts) = list_all statement stmts"
| "statement (Block body) = statement body"
| "statement (Return_statement e) = expression e"
| "statement (Self_evaluating l) = True"
| "statement (Name x) = True"
| "statement (Conditional_expression p c a) = (expression p \<and> expression c \<and> expression a)"
| "statement (Function_definition vars body) = statement body"
| "statement (Application f args) = (expression f \<and> list_all expression args)"
| "statement Unknown_node = False"

text \<open>The same grammar on the executables that \<open>analyze\<close> builds.\<close>

fun expression_fun :: "'n exec \<Rightarrow> bool" and statement_fun :: "'n exec \<Rightarrow> bool" where
  "expression_fun (Self_evaluating_fun l) = True"
| "expression_fun (Name_fun x) = True"
| "expression_fun (Conditional_fun p c a) = (expression_fun p \<and> expression_fun c \<and> expression_fun a)"
| "expression_fun (Function_definition_fun vars locals body) = statement_fun body"
| "expression_fun (Application_fun f args) = (expression_fun f \<and> list_all expression_fun args)"
| "expression_fun f = False"
| "statement_fun (Constant_declaration_fun name v) = expression_fun v"
| "statement_fun Empty_sequence_fun = True"
| "statement_fun (Sequentially f g) = (statement_fun f \<and> statement_fun g)"
| "statement_fun (Block_fun locals body) = statement_fun body"
| "statement_fun (Return_fun e) = expression_fun e"
| "statement_fun (Self_evaluating_fun l) = True"
| "statement_fun (Name_fun x) = True"
| "statement_fun (Conditional_fun p c a) = (expression_fun p \<and> expression_fun c \<and> expression_fun a)"
| "statement_fun (Function_definition_fun vars locals body) = statement_fun body"
| "statement_fun (Application_fun f args) = (expression_fun f \<and> list_all expression_fun args)"

text \<open>
  The values a program of the grammar can hold in a frame or pass as an argument: no
  Return Value marker, and no function whose body is outside the grammar. A proper
  store holds proper values only; proper primitives return proper values on proper
  arguments.
\<close>

fun proper_value :: "'n val \<Rightarrow> bool" where
  "proper_value (Return_value content) = False"
| "proper_value (Compound_function parameters locals body fenv) = statement_fun body"
| "proper_value v = True"

definition proper_store :: "'n store \<Rightarrow> bool" where
  "proper_store st = list_all (\<lambda>frame. list_all proper_value (snd frame)) st"

definition proper_primitives :: "(string \<Rightarrow> 'n val list \<Rightarrow> error + 'n val) \<Rightarrow> bool" where
  "proper_primitives ap =
     (\<forall>impl args v. list_all proper_value args \<longrightarrow> ap impl args = Inr v \<longrightarrow> proper_value v)"

text \<open>The result of a statement: a proper value, or a marker around one.\<close>

definition proper_result :: "'n val \<Rightarrow> bool" where
  "proper_result v = (case v of Return_value content \<Rightarrow> proper_value content | _ \<Rightarrow> proper_value v)"

text \<open>Every frame has as many values as names.\<close>

definition frames_ok :: "'n store \<Rightarrow> bool" where
  "frames_ok st = list_all (\<lambda>frame. length (snd frame) = length (fst frame)) st"

section \<open>Properties of name lookup\<close>

lemma scan_absent:
  "length vals = length names \<Longrightarrow> map_of (zip names vals) name = None \<Longrightarrow>
   scan name names vals r = r"
  by (induction name names vals r rule: scan.induct) (auto split: if_splits)

lemma scan_present:
  "length vals = length names \<Longrightarrow> map_of (zip names vals) name = Some v \<Longrightarrow>
   scan name names vals r = Inr v"
  by (induction name names vals r rule: scan.induct) (auto split: if_splits)

lemma env_loop_initialized: "env_loop name env st \<noteq> Inr No_value_yet"
  by (cases env) (auto split: sum.splits)

text \<open>
  C4: lookup scans the innermost frame first. A name found there whose slot still holds
  the sentinel raises the use-before-declaration error; otherwise its value is
  returned. A name absent from the innermost frame is looked up in the enclosing
  environment, and the empty environment raises the unbound-name error.
  The slot of a name is the first one under that name, \<open>map_of (zip names vals) name\<close>.
\<close>

theorem lookup_name_value_frame:
  assumes "a < length st" and "st ! a = (names, vals)" and "length vals = length names"
  shows "lookup_name_value name [] st = Inl (Unbound_name name) \<and>
         (map_of (zip names vals) name = Some No_value_yet \<longrightarrow>
            lookup_name_value name (a # env) st = Inl (Name_used_before_declaration name)) \<and>
         (\<forall>v. map_of (zip names vals) name = Some v \<and> v \<noteq> No_value_yet \<longrightarrow>
            lookup_name_value name (a # env) st = Inr v) \<and>
         (map_of (zip names vals) name = None \<longrightarrow>
            lookup_name_value name (a # env) st = lookup_name_value name env st)"
proof -
  have absent: "lookup_name_value name (a # env) st = lookup_name_value name env st"
    if "map_of (zip names vals) name = None"
  proof -
    have "scan name names vals (env_loop name env st) = env_loop name env st"
      using assms(3) that by (rule scan_absent)
    then show ?thesis
      using assms(1,2) env_loop_initialized [of name env st]
      by (auto simp: lookup_name_value_def split: sum.splits)
  qed
  have present: "lookup_name_value name (a # env) st =
      (if v = No_value_yet then Inl (Name_used_before_declaration name) else Inr v)"
    if "map_of (zip names vals) name = Some v" for v
    using assms scan_present [OF assms(3) that] by (simp add: lookup_name_value_def)
  show ?thesis
    using absent present by (simp add: lookup_name_value_def)
qed


theorem lookup_name_value_frame_witness:
  "lookup_name_value ''x'' [] [([''x'', ''y''], [No_value_yet, Lit (Bool_lit True)])]
     = (Inl (Unbound_name ''x'') :: error + int val) \<and>
   lookup_name_value ''x'' [0] [([''x'', ''y''], [No_value_yet, Lit (Bool_lit True)])]
     = (Inl (Name_used_before_declaration ''x'') :: error + int val) \<and>
   lookup_name_value ''y'' [0] [([''x'', ''y''], [No_value_yet, Lit (Bool_lit True)])]
     = (Inr (Lit (Bool_lit True)) :: error + int val) \<and>
   lookup_name_value ''z'' [0] [([''x'', ''y''], [No_value_yet, Lit (Bool_lit True)])]
     = (Inl (Unbound_name ''z'') :: error + int val)"
  using lookup_name_value_frame [of 0 "[([''x'', ''y''], [No_value_yet, Lit (Bool_lit True :: int literal)])]"
          "[''x'', ''y'']" "[No_value_yet, Lit (Bool_lit True)]" "''x''" "[]"]
        lookup_name_value_frame [of 0 "[([''x'', ''y''], [No_value_yet, Lit (Bool_lit True :: int literal)])]"
          "[''x'', ''y'']" "[No_value_yet, Lit (Bool_lit True)]" "''y''" "[]"]
        lookup_name_value_frame [of 0 "[([''x'', ''y''], [No_value_yet, Lit (Bool_lit True :: int literal)])]"
          "[''x'', ''y'']" "[No_value_yet, Lit (Bool_lit True)]" "''z''" "[]"]
  by simp

lemma env_loop_skip:
  assumes "\<forall>b \<in> set pre. b < length st \<and> length (snd (st ! b)) = length (fst (st ! b)) \<and>
             name \<notin> set (fst (st ! b))"
  shows "env_loop name (pre @ env) st = env_loop name env st"
  using assms
proof (induction pre)
  case Nil
  then show ?case by simp
next
  case (Cons b pre)
  have len: "length (snd (st ! b)) = length (fst (st ! b))" and nin: "name \<notin> set (fst (st ! b))"
    and b: "b < length st"
    using Cons.prems by auto
  have "map_of (zip (fst (st ! b)) (snd (st ! b))) name = None"
    using nin len by (simp add: map_of_zip_is_None)
  then have "scan name (fst (st ! b)) (snd (st ! b)) (env_loop name (pre @ env) st)
      = env_loop name (pre @ env) st"
    using len by (intro scan_absent)
  moreover have "env_loop name (pre @ env) st = env_loop name env st"
    using Cons by simp
  ultimately show ?case
    using b env_loop_initialized [of name env st] by (auto split: sum.splits)
qed

text \<open>
  C10: the innermost frame that holds the name decides the lookup, whatever the
  enclosing frames \<open>post\<close> hold: if its slot is the sentinel, the use-before-declaration
  error is raised even when an enclosing frame binds the name to a value.
\<close>

theorem innermost_frame_shadows:
  assumes "\<forall>b \<in> set pre. b < length st \<and> length (snd (st ! b)) = length (fst (st ! b)) \<and>
             name \<notin> set (fst (st ! b))"
    and "a < length st" and "st ! a = (names, vals)" and "length vals = length names"
    and "map_of (zip names vals) name = Some v"
  shows "lookup_name_value name (pre @ a # post) st =
           (if v = No_value_yet then Inl (Name_used_before_declaration name) else Inr v)"
proof -
  have "lookup_name_value name (pre @ a # post) st = env_loop name (a # post) st"
    unfolding lookup_name_value_def using assms(1) by (rule env_loop_skip)
  also have "\<dots> = (if v = No_value_yet then Inl (Name_used_before_declaration name) else Inr v)"
    using assms(2,3) scan_present [OF assms(4,5)] by simp
  finally show ?thesis .
qed

theorem innermost_frame_shadows_witness:
  "lookup_name_value ''x'' [2, 1, 0]
     [([''x''], [Lit (Num_lit (1::int))]), ([''x''], [No_value_yet]), ([''y''], [Undefined])]
     = Inl (Name_used_before_declaration ''x'') \<and>
   lookup_name_value ''x'' [0]
     [([''x''], [Lit (Num_lit (1::int))]), ([''x''], [No_value_yet]), ([''y''], [Undefined])]
     = Inr (Lit (Num_lit 1))"
  using innermost_frame_shadows [of "[2]"
      "[([''x''], [Lit (Num_lit (1::int))]), ([''x''], [No_value_yet]), ([''y''], [Undefined])]"
      "''x''" 1 "[''x'']" "[No_value_yet]" No_value_yet "[0]"]
    innermost_frame_shadows [of "[]"
      "[([''x''], [Lit (Num_lit (1::int))]), ([''x''], [No_value_yet]), ([''y''], [Undefined])]"
      "''x''" 0 "[''x'']" "[Lit (Num_lit 1)]" "Lit (Num_lit 1)" "[]"]
  by simp

section \<open>Conditionals\<close>

text \<open>
  C2: the executable of a conditional expression evaluates the predicate and runs the
  consequent's executable if and only if the predicate's value is exactly the boolean
  true; for every other value, booleans or not, it runs the alternative's, and the
  predicate's value raises no error.
\<close>

theorem conditional_takes_consequent_iff_true:
  assumes "analyze (Conditional_expression p c a) = Inr f"
  shows "\<exists>pfun cfun afun.
           analyze p = Inr pfun \<and> analyze c = Inr cfun \<and> analyze a = Inr afun \<and>
           (\<forall>ap k env st v st1.
              execute ap k pfun env st = Ok (v, st1) \<longrightarrow>
              execute ap k f env st =
                (if v = Lit (Bool_lit True) then execute ap k cfun env st1
                 else execute ap k afun env st1))"
  using assms by (auto simp: is_true_def split: sum.splits)

theorem conditional_takes_consequent_iff_true_witness:
  "evaluate (\<lambda>impl args. Inl Host_error) 0
     (Conditional_expression (Self_evaluating (Bool_lit True))
        (Self_evaluating (Num_lit (1::int))) (Self_evaluating (Num_lit 2))) [] []
     = Ok (Lit (Num_lit 1), []) \<and>
   evaluate (\<lambda>impl args. Inl Host_error) 0
     (Conditional_expression (Self_evaluating (Num_lit 0))
        (Self_evaluating (Num_lit (1::int))) (Self_evaluating (Num_lit 2))) [] []
     = Ok (Lit (Num_lit 2), [])"
  using conditional_takes_consequent_iff_true [of "Self_evaluating (Bool_lit True)"
      "Self_evaluating (Num_lit (1::int))" "Self_evaluating (Num_lit 2)"
      "Conditional_fun (Self_evaluating_fun (Bool_lit True))
         (Self_evaluating_fun (Num_lit 1)) (Self_evaluating_fun (Num_lit 2))"]
    conditional_takes_consequent_iff_true [of "Self_evaluating (Num_lit 0)"
      "Self_evaluating (Num_lit (1::int))" "Self_evaluating (Num_lit 2)"
      "Conditional_fun (Self_evaluating_fun (Num_lit 0))
         (Self_evaluating_fun (Num_lit 1)) (Self_evaluating_fun (Num_lit 2))"]
  by (simp add: evaluate_def)

section \<open>Sequences\<close>

lemma sequence_spec_sequentially:
  "sequence_spec ap k (Sequentially f g # fs) env st = sequence_spec ap k (f # g # fs) env st"
  by (cases fs) (auto split: outcome.splits)

lemma execute_loop:
  "execute ap k (loop f fs) env st = sequence_spec ap k (f # fs) env st"
proof (induction fs arbitrary: f)
  case Nil
  show ?case by simp
next
  case (Cons g fs)
  have "execute ap k (loop f (g # fs)) env st = sequence_spec ap k (Sequentially f g # fs) env st"
    using Cons.IH [of "Sequentially f g"] by simp
  then show ?case
    by (simp only: sequence_spec_sequentially)
qed

lemma map_analyze_list_all2:
  "map_analyze stmts = Inr funs \<Longrightarrow> list_all2 (\<lambda>s f. analyze s = Inr f) stmts funs"
  by (induction stmts arbitrary: funs) (auto split: sum.splits)

text \<open>
  C5: the executable of a sequence runs the executables of its statements left to
  right; its value is the last statement's value, except that the first result that is
  a Return Value marker is returned at once and the remaining statements are not run.
\<close>

theorem sequence_runs_left_to_right:
  assumes "analyze (Sequence stmts) = Inr f"
  shows "\<exists>funs. list_all2 (\<lambda>s g. analyze s = Inr g) stmts funs \<and>
           (\<forall>ap k env st. execute ap k f env st = sequence_spec ap k funs env st)"
proof -
  from assms obtain funs where funs: "map_analyze stmts = Inr funs"
    and f: "f = (case funs of [] \<Rightarrow> Empty_sequence_fun | g # gs \<Rightarrow> loop g gs)"
    by (auto split: sum.splits list.splits)
  have "execute ap k f env st = sequence_spec ap k funs env st" for ap k env st
    unfolding f by (cases funs) (simp_all add: execute_loop)
  with map_analyze_list_all2 [OF funs] show ?thesis by blast
qed


theorem sequence_runs_left_to_right_witness:
  "analyze (Sequence [Self_evaluating (Num_lit (1::int)),
       Return_statement (Self_evaluating (Num_lit 2)), Self_evaluating (Num_lit 3)])
     = Inr (Sequentially (Sequentially (Self_evaluating_fun (Num_lit 1))
              (Return_fun (Self_evaluating_fun (Num_lit 2)))) (Self_evaluating_fun (Num_lit 3))) \<and>
   execute (\<lambda>impl args. Inl Host_error) 0
     (Sequentially (Sequentially (Self_evaluating_fun (Num_lit (1::int)))
              (Return_fun (Self_evaluating_fun (Num_lit 2)))) (Self_evaluating_fun (Num_lit 3)))
     [] [] = Ok (Return_value (Lit (Num_lit 2)), [])"
  using sequence_runs_left_to_right [of "[Self_evaluating (Num_lit (1::int)),
       Return_statement (Self_evaluating (Num_lit 2)), Self_evaluating (Num_lit 3)]"
     "Sequentially (Sequentially (Self_evaluating_fun (Num_lit 1))
              (Return_fun (Self_evaluating_fun (Num_lit 2)))) (Self_evaluating_fun (Num_lit 3))"]
  by simp

section \<open>Merging names\<close>

lemma insert_all_Inr:
  "insert_all xs ys = Inr r \<Longrightarrow> r = xs @ ys \<and> set xs \<inter> set ys = {}"
  by (induction xs arbitrary: r) (auto split: if_splits sum.splits)

lemma insert_all_disjoint:
  "set xs \<inter> set ys = {} \<Longrightarrow> insert_all xs ys = Inr (xs @ ys)"
  by (induction xs) auto

lemma insert_all_Inl:
  "insert_all xs ys = Inl e \<Longrightarrow> \<exists>x \<in> set xs \<inter> set ys. e = Multiple_declarations x"
  by (induction xs) (auto split: if_splits sum.splits)

lemma insert_all_collision:
  "set xs \<inter> set ys \<noteq> {} \<Longrightarrow> \<exists>x \<in> set xs \<inter> set ys. insert_all xs ys = Inl (Multiple_declarations x)"
proof -
  assume a: "set xs \<inter> set ys \<noteq> {}"
  obtain e where "insert_all xs ys = Inl e"
    using a insert_all_Inr [of xs ys] by (cases "insert_all xs ys") auto
  then show ?thesis using insert_all_Inl [of xs ys e] by auto
qed

section \<open>Application of compound functions\<close>

text \<open>
  C3: when the parameter and local names of a compound function are pairwise distinct,
  the frame of a call is built if and only if there are as many arguments as
  parameters; more arguments raise the too-many-arguments error, fewer raise the
  too-few-arguments error.
\<close>

theorem arity_check:
  assumes "distinct (parameters @ locals)"
  shows "insert_all parameters locals = Inr (parameters @ locals) \<and>
         ((\<exists>r. extend_environment (parameters @ locals) (args @ map (\<lambda>x. No_value_yet) locals)
                  fenv st = Inr r) \<longleftrightarrow> length args = length parameters) \<and>
         (length parameters < length args \<longrightarrow>
            execute_application ap k (Compound_function parameters locals body fenv) args st
              = Error Too_many_arguments) \<and>
         (length args < length parameters \<longrightarrow>
            execute_application ap k (Compound_function parameters locals body fenv) args st
              = Error Too_few_arguments) \<and>
         (length args = length parameters \<longrightarrow>
            execute_application ap (Suc k) (Compound_function parameters locals body fenv) args st
              = (case execute ap k body (length st # fenv)
                        (st @ [(parameters @ locals, args @ map (\<lambda>x. No_value_yet) locals)]) of
                   Timeout \<Rightarrow> Timeout
                 | Error e \<Rightarrow> Error e
                 | Ok (result, st2) \<Rightarrow>
                     (case result of
                        Return_value content \<Rightarrow> Ok (content, st2)
                      | _ \<Rightarrow> Ok (Undefined, st2))))"
proof -
  have ins: "insert_all parameters locals = Inr (parameters @ locals)"
    using assms by (intro insert_all_disjoint) auto
  show ?thesis
    by (simp add: ins extend_environment_def)
qed

theorem arity_check_witness:
  "execute_application (\<lambda>impl args. Inl Host_error) 1
     (Compound_function [''a''] [] (Return_fun (Name_fun ''a'')) [])
     [Lit (Num_lit (1::int)), Lit (Num_lit 2)] [] = Error Too_many_arguments \<and>
   execute_application (\<lambda>impl args. Inl Host_error) 1
     (Compound_function [''a''] [] (Return_fun (Name_fun ''a'')) [])
     ([] :: int val list) [] = Error Too_few_arguments \<and>
   execute_application (\<lambda>impl args. Inl Host_error) 1
     (Compound_function [''a''] [] (Return_fun (Name_fun ''a'')) [])
     [Lit (Num_lit (1::int))] [] = Ok (Lit (Num_lit 1), [([''a''], [Lit (Num_lit 1)])])"
  using arity_check [of "[''a'']" "[]" "[Lit (Num_lit (1::int)), Lit (Num_lit 2)]" "[]" "[]"
          "\<lambda>impl args. Inl Host_error" 1 "Return_fun (Name_fun ''a'')"]
        arity_check [of "[''a'']" "[]" "[] :: int val list" "[]" "[]"
          "\<lambda>impl args. Inl Host_error" 1 "Return_fun (Name_fun ''a'')"]
        arity_check [of "[''a'']" "[]" "[Lit (Num_lit (1::int))]" "[]" "[]"
          "\<lambda>impl args. Inl Host_error" 0 "Return_fun (Name_fun ''a'')"]
  by (simp add: lookup_name_value_def)

text \<open>
  C9: when a parameter of a function definition is also a direct local constant of its
  body, the analysis of the definition succeeds and yields the function value, and
  every application of that value raises the multiple-declarations error, whatever the
  arguments, when parameters and locals are merged.
\<close>

theorem parameter_local_collision:
  assumes "local_names body = Inr locals" and "analyze body = Inr body_fun"
    and "set parameters \<inter> set locals \<noteq> {}"
  shows "analyze (Function_definition parameters body)
           = Inr (Function_definition_fun parameters locals body_fun) \<and>
         execute ap k (Function_definition_fun parameters locals body_fun) env st
           = Ok (Compound_function parameters locals body_fun env, st) \<and>
         (\<exists>x \<in> set parameters \<inter> set locals. \<forall>ap' k' args st'.
            execute_application ap' k' (Compound_function parameters locals body_fun env) args st'
              = Error (Multiple_declarations x))"
proof -
  obtain x where "x \<in> set parameters \<inter> set locals"
    and "insert_all parameters locals = Inl (Multiple_declarations x)"
    using insert_all_collision [OF assms(3)] by blast
  then show ?thesis using assms(1,2) by auto
qed

theorem parameter_local_collision_witness:
  "analyze (Function_definition [''a'']
      (Sequence [Constant_declaration ''a'' (Self_evaluating (Num_lit (1::int)))]))
     = Inr (Function_definition_fun [''a''] [''a'']
         (Constant_declaration_fun ''a'' (Self_evaluating_fun (Num_lit 1)))) \<and>
   execute_application (\<lambda>impl args. Inl Host_error) 1
     (Compound_function [''a''] [''a'']
         (Constant_declaration_fun ''a'' (Self_evaluating_fun (Num_lit (1::int)))) [])
     [Lit (Num_lit 5)] [] = Error (Multiple_declarations ''a'')"
  using parameter_local_collision [of
      "Sequence [Constant_declaration ''a'' (Self_evaluating (Num_lit (1::int)))]" "[''a'']"
      "Constant_declaration_fun ''a'' (Self_evaluating_fun (Num_lit 1))" "[''a'']"
      "\<lambda>impl args. Inl Host_error" 1 "[]" "[]"]
  by simp

section \<open>Local names\<close>

lemma local_names_Inr:
  "local_names s = Inr xs \<Longrightarrow> xs = declared_names s \<and> distinct xs"
proof (induction s arbitrary: xs rule: local_names.induct)
  case (1 stmts)
  show ?case
  proof (cases stmts)
    case Nil
    with "1.prems" show ?thesis by simp
  next
    case (Cons s rest)
    from "1.prems" Cons obtain ys zs where s: "local_names s = Inr ys"
      and rest: "local_names (Sequence rest) = Inr zs" and ins: "insert_all ys zs = Inr xs"
      by (auto split: sum.splits)
    have ys: "ys = declared_names s \<and> distinct ys"
      using "1.IH"(1) [OF Cons s] .
    have zs: "zs = declared_names (Sequence rest) \<and> distinct zs"
      using "1.IH"(2) [OF Cons s rest] .
    from insert_all_Inr [OF ins] ys zs Cons show ?thesis by auto
  qed
qed simp_all

lemma local_names_Inl:
  "local_names s = Inl e \<Longrightarrow>
     \<exists>x. e = Multiple_declarations x \<and> 1 < count_list (declared_names s) x"
proof (induction s arbitrary: e rule: local_names.induct)
  case (1 stmts)
  show ?case
  proof (cases stmts)
    case Nil
    with "1.prems" show ?thesis by simp
  next
    case (Cons s rest)
    have decl: "declared_names (Sequence stmts) = declared_names s @ declared_names (Sequence rest)"
      using Cons by simp
    show ?thesis
    proof (cases "local_names s")
      case (Inl e1)
      then have "e = e1" using "1.prems" Cons by simp
      with "1.IH"(1) [OF Cons Inl] show ?thesis
        unfolding decl by auto
    next
      case (Inr ys)
      note s = this
      show ?thesis
      proof (cases "local_names (Sequence rest)")
        case (Inl e2)
        then have "e = e2" using "1.prems" Cons s by simp
        with "1.IH"(2) [OF Cons s Inl] show ?thesis
          unfolding decl by auto
      next
        case (Inr zs)
        then have ins: "insert_all ys zs = Inl e" using "1.prems" Cons s by simp
        then obtain x where x: "x \<in> set ys" "x \<in> set zs" "e = Multiple_declarations x"
          using insert_all_Inl by blast
        have "ys = declared_names s" "zs = declared_names (Sequence rest)"
          using local_names_Inr [OF s] local_names_Inr [OF Inr] by blast+
        then have "count_list (declared_names s) x \<noteq> 0"
          and "count_list (declared_names (Sequence rest)) x \<noteq> 0"
          using x(1,2) by (simp_all only: count_list_0_iff not_not)
        then show ?thesis
          unfolding decl using x(3) by simp
      qed
    qed
  qed
qed simp_all

text \<open>
  C7: when the direct statements of a block or of a function body hold two constant
  declarations of one name, collecting the local names raises the
  multiple-declarations error for a name declared twice. The error is raised by the
  analysis of the block and of the function definition (whose body is the statements
  or the block around them), so no executable exists and no statement of the scope
  runs; evaluation fails with any fuel, even none.
\<close>

theorem duplicate_declaration_static:
  assumes "\<not> distinct (declared_names body)"
  shows "\<exists>x. 1 < count_list (declared_names body) x \<and>
           local_names body = Inl (Multiple_declarations x) \<and>
           analyze (Block body) = Inl (Multiple_declarations x) \<and>
           analyze (Function_definition vars body) = Inl (Multiple_declarations x) \<and>
           analyze (Function_definition vars (Block body)) = Inl (Multiple_declarations x) \<and>
           (\<forall>ap k env st. evaluate ap k (Block body) env st = Error (Multiple_declarations x))"
proof -
  obtain e where e: "local_names body = Inl e"
    using assms local_names_Inr [of body] by (cases "local_names body") auto
  then obtain x where "e = Multiple_declarations x" "1 < count_list (declared_names body) x"
    using local_names_Inl by blast
  with e show ?thesis
    by (auto simp: evaluate_def)
qed

theorem duplicate_declaration_static_witness:
  "\<not> distinct (declared_names (Sequence
       [Constant_declaration ''a'' (Self_evaluating (Num_lit (1::int))),
        Application (Name ''display'') [Name ''a''],
        Constant_declaration ''a'' (Self_evaluating (Num_lit 2))])) \<and>
   evaluate (\<lambda>impl args. Inl Host_error) 0 (Block (Sequence
       [Constant_declaration ''a'' (Self_evaluating (Num_lit (1::int))),
        Application (Name ''display'') [Name ''a''],
        Constant_declaration ''a'' (Self_evaluating (Num_lit 2))])) [] []
     = Error (Multiple_declarations ''a'')"
proof -
  have h: "\<not> distinct (declared_names (Sequence
       [Constant_declaration ''a'' (Self_evaluating (Num_lit (1::int))),
        Application (Name ''display'') [Name ''a''],
        Constant_declaration ''a'' (Self_evaluating (Num_lit 2))]))"
    by simp
  from duplicate_declaration_static [OF h, of "[]"] h show ?thesis
    by (auto simp: evaluate_def)
qed


section \<open>The top level\<close>

lemma setup_environment_frame:
  "setup_environment math_PI =
     Inr ([0], [(primitive_functions @ [''undefined'', ''math_PI''],
                 map Primitive primitive_functions @ [Undefined, Lit (Num_lit math_PI)])])"
  by (simp add: setup_environment_def extend_environment_def primitive_constants_def
      the_empty_environment_def)

text \<open>
  C6: the top level evaluates the program wrapped in a block in the global environment:
  the program's executable runs in a frame of its own (address 1, holding the program's
  local names) layered on the global frame (address 0). A result that is a Return Value
  marker raises the return-outside-function error; any other value is returned
  unchanged.
\<close>

theorem eval_toplevel_block:
  "eval_toplevel ap math_PI k program =
     (case evaluate ap k (Block program) [0]
             [(primitive_functions @ [''undefined'', ''math_PI''],
               map Primitive primitive_functions @ [Undefined, Lit (Num_lit math_PI)])] of
        Timeout \<Rightarrow> Timeout
      | Error e \<Rightarrow> Error e
      | Ok (v, st) \<Rightarrow>
          (case v of Return_value content \<Rightarrow> Error Return_not_allowed | _ \<Rightarrow> Ok v)) \<and>
   (\<forall>locals body_func.
      local_names program = Inr locals \<and> analyze program = Inr body_func \<longrightarrow>
      evaluate ap k (Block program) [0]
             [(primitive_functions @ [''undefined'', ''math_PI''],
               map Primitive primitive_functions @ [Undefined, Lit (Num_lit math_PI)])]
        = execute ap k body_func [1, 0]
             [(primitive_functions @ [''undefined'', ''math_PI''],
               map Primitive primitive_functions @ [Undefined, Lit (Num_lit math_PI)]),
              (locals, map (\<lambda>x. No_value_yet) locals)])"
proof -
  have "is_return_value v = (case v of Return_value content \<Rightarrow> True | _ \<Rightarrow> False)"
    for v :: "'a val"
    by (cases v) simp_all
  then show ?thesis
    by (auto simp: eval_toplevel_def setup_environment_frame evaluate_def
        extend_environment_def split: outcome.splits val.splits)
qed

theorem eval_toplevel_block_witness:
  "eval_toplevel (\<lambda>impl args. Inl Host_error) (3::int) 0
     (Return_statement (Self_evaluating (Num_lit 1))) = Error Return_not_allowed \<and>
   eval_toplevel (\<lambda>impl args. Inl Host_error) (3::int) 0
     (Sequence [Constant_declaration ''x'' (Self_evaluating (Num_lit 7)), Name ''x''])
     = Ok (Lit (Num_lit 7))"
  using eval_toplevel_block [of "\<lambda>impl args. Inl Host_error" "3::int" 0
          "Return_statement (Self_evaluating (Num_lit 1))"]
        eval_toplevel_block [of "\<lambda>impl args. Inl Host_error" "3::int" 0
          "Sequence [Constant_declaration ''x'' (Self_evaluating (Num_lit 7)), Name ''x'']"]
  by (simp add: lookup_name_value_def set_name_value_def primitive_functions_def)

section \<open>Closures\<close>

text \<open>
  C1: a function definition executed in an environment captures that environment in the
  function value. An application, from any environment \<open>env\<close> of the call site, runs the
  body in a new frame (parameters bound to the arguments, locals to the sentinel)
  chained onto the captured environment \<open>fenv\<close>; \<open>env\<close> does not occur in the
  environment of the body. So the free names of a function returned from another
  function resolve where the function was defined.
\<close>

theorem application_extends_defining_environment:
  assumes "execute ap k function_func env st = Ok (Compound_function parameters locals body fenv, st1)"
    and "map_execute ap k arg_funcs env st1 = Ok (args, st2)"
    and "set parameters \<inter> set locals = {}"
    and "length args = length parameters"
  shows "execute ap k (Function_definition_fun parameters locals body) fenv st0
           = Ok (Compound_function parameters locals body fenv, st0) \<and>
         execute ap k (Application_fun function_func arg_funcs) env st =
           (case k of
              0 \<Rightarrow> Timeout
            | Suc k' \<Rightarrow>
                (case execute ap k' body (length st2 # fenv)
                        (st2 @ [(parameters @ locals, args @ map (\<lambda>x. No_value_yet) locals)]) of
                   Timeout \<Rightarrow> Timeout
                 | Error e \<Rightarrow> Error e
                 | Ok (result, st3) \<Rightarrow>
                     (case result of
                        Return_value content \<Rightarrow> Ok (content, st3)
                      | _ \<Rightarrow> Ok (Undefined, st3))))"
  using assms insert_all_disjoint [OF assms(3)]
  by (simp add: extend_environment_def)

theorem application_extends_defining_environment_witness:
  "execute (\<lambda>impl args. Inl Host_error) 1 (Application_fun (Name_fun ''g'') []) [1]
     [([''x''], [Lit (Str_lit ''defining'')]),
      ([''x'', ''g''], [Lit (Str_lit ''calling''),
         Compound_function [] [] (Return_fun (Name_fun ''x'')) [0]])]
   = Ok (Lit (Str_lit ''defining'' :: int literal),
       [([''x''], [Lit (Str_lit ''defining'')]),
        ([''x'', ''g''], [Lit (Str_lit ''calling''),
           Compound_function [] [] (Return_fun (Name_fun ''x'')) [0]]),
        ([], [])])"
  using application_extends_defining_environment [of "\<lambda>impl args. Inl Host_error" 1
      "Name_fun ''g''" "[1]"
      "[([''x''], [Lit (Str_lit ''defining'' :: int literal)]),
        ([''x'', ''g''], [Lit (Str_lit ''calling''),
           Compound_function [] [] (Return_fun (Name_fun ''x'')) [0]])]"
      "[]" "[]" "Return_fun (Name_fun ''x'')" "[0]"
      "[([''x''], [Lit (Str_lit ''defining'' :: int literal)]),
        ([''x'', ''g''], [Lit (Str_lit ''calling''),
           Compound_function [] [] (Return_fun (Name_fun ''x'')) [0]])]"
      "[]" "[]"
      "[([''x''], [Lit (Str_lit ''defining'' :: int literal)]),
        ([''x'', ''g''], [Lit (Str_lit ''calling''),
           Compound_function [] [] (Return_fun (Name_fun ''x'')) [0]])]"]
  by (simp add: lookup_name_value_def)

text \<open>
  A whole program: \<^verbatim>\<open>mk\<close> returns a function that reads \<^verbatim>\<open>x\<close>; the function is called
  from a block that declares another \<^verbatim>\<open>x\<close>, and reads the \<^verbatim>\<open>x\<close> of its definition.
\<close>

lemma returned_function_example:
  "eval_toplevel (\<lambda>impl args. Inl Host_error) (3::int) 2
     (Sequence
        [Constant_declaration ''mk''
           (Function_definition []
              (Block (Sequence
                 [Constant_declaration ''x'' (Self_evaluating (Str_lit ''defining'')),
                  Return_statement (Function_definition [] (Return_statement (Name ''x'')))]))),
         Constant_declaration ''g'' (Application (Name ''mk'') []),
         Block (Sequence
           [Constant_declaration ''x'' (Self_evaluating (Str_lit ''calling'')),
            Application (Name ''g'') []])])
     = Ok (Lit (Str_lit ''defining''))"
  by (simp add: eval_toplevel_def setup_environment_frame evaluate_def extend_environment_def
      lookup_name_value_def set_name_value_def primitive_functions_def)

section \<open>Return values\<close>

lemma expression_is_statement: "expression e \<Longrightarrow> statement e"
  by (cases e) simp_all

lemma expression_fun_is_statement_fun: "expression_fun f \<Longrightarrow> statement_fun f"
  by (cases f) simp_all

lemma proper_value_result: "proper_value v \<Longrightarrow> proper_result v"
  by (cases v) (simp_all add: proper_result_def)

lemma proper_store_frame:
  "proper_store st \<Longrightarrow> a < length st \<Longrightarrow> list_all proper_value (snd (st ! a))"
  by (simp add: proper_store_def list_all_length)

lemma scan_proper:
  "list_all proper_value vals \<Longrightarrow> scan name names vals r = Inr v \<Longrightarrow> r = Inr v \<or> proper_value v"
  by (induction name names vals r rule: scan.induct) (auto split: if_splits)

lemma env_loop_proper:
  "proper_store st \<Longrightarrow> env_loop name env st = Inr v \<Longrightarrow> proper_value v"
proof (induction env arbitrary: v)
  case Nil
  then show ?case by simp
next
  case (Cons a env)
  from Cons.prems(2) have a: "a < length st"
    by (simp split: if_splits)
  from Cons.prems(2) a
  have sc: "scan name (fst (st ! a)) (snd (st ! a)) (env_loop name env st) = Inr v"
    by (simp split: sum.splits if_splits)
  from scan_proper [OF proper_store_frame [OF Cons.prems(1) a] sc] Cons.IH [OF Cons.prems(1)]
  show ?case by blast
qed

lemma scan_set_proper:
  "list_all proper_value vals \<Longrightarrow> proper_value val \<Longrightarrow> scan_set name val names vals = Inr vs
     \<Longrightarrow> list_all proper_value vs"
  by (induction name val names vals arbitrary: vs rule: scan_set.induct)
     (auto split: if_splits sum.splits)

lemma set_name_value_proper:
  assumes "proper_store st" and "proper_value val" and "set_name_value name val env st = Inr st1"
  shows "proper_store st1"
proof -
  from assms(3) obtain a enclosing vs where env: "env = a # enclosing" and a: "a < length st"
    and sc: "scan_set name val (fst (st ! a)) (snd (st ! a)) = Inr vs"
    and st1: "st1 = st[a := (fst (st ! a), vs)]"
    by (auto simp: set_name_value_def split: list.splits if_splits sum.splits)
  have "list_all proper_value vs"
    using scan_set_proper [OF proper_store_frame [OF assms(1) a] assms(2) sc] .
  moreover have "set (st[a := (fst (st ! a), vs)]) \<subseteq> insert (fst (st ! a), vs) (set st)"
    by (rule set_update_subset_insert)
  ultimately show ?thesis
    using assms(1) unfolding st1 proper_store_def list_all_iff by auto
qed

lemma extend_environment_proper:
  "proper_store st \<Longrightarrow> list_all proper_value vals \<Longrightarrow>
   extend_environment names vals base_env st = Inr (env1, st1) \<Longrightarrow> proper_store st1"
  by (auto simp: extend_environment_def proper_store_def split: if_splits)

lemma sentinels_proper: "list_all proper_value (map (\<lambda>x. No_value_yet) locals)"
  by (induction locals) simp_all

text \<open>
  Execution keeps the store proper. An expression yields a proper value, a statement a
  proper value or a marker around one, an application a proper value.
\<close>

lemma execute_proper:
  "proper_primitives ap \<Longrightarrow> proper_store st \<Longrightarrow> statement_fun f \<Longrightarrow>
     execute ap k f env st = Ok (v, st') \<Longrightarrow>
     proper_store st' \<and> (expression_fun f \<longrightarrow> proper_value v) \<and> proper_result v"
  and map_execute_proper: "proper_primitives ap \<Longrightarrow> proper_store st \<Longrightarrow> list_all expression_fun fs \<Longrightarrow>
     map_execute ap k fs env st = Ok (vs, st') \<Longrightarrow>
     proper_store st' \<and> list_all proper_value vs"
  and execute_application_proper: "proper_primitives ap \<Longrightarrow> proper_store st \<Longrightarrow> proper_value fv \<Longrightarrow>
     list_all proper_value args \<Longrightarrow> execute_application ap k fv args st = Ok (v, st') \<Longrightarrow>
     proper_store st' \<and> proper_value v"
proof (induction ap k f env st and ap k fs env st and ap k fv args st
    arbitrary: v st' and vs st' and v st'
    rule: execute_map_execute_execute_application.induct)
  case (1 ap k l env st)
  then show ?case by (auto simp: proper_result_def)
next
  case (2 ap k x env st)
  then have "lookup_name_value x env st = Inr v" and "st' = st"
    by (auto split: sum.splits)
  with 2 show ?case
    by (auto simp: lookup_name_value_def dest: env_loop_proper proper_value_result)
next
  case (3 ap k name vfun env st)
  from "3.prems"(4) obtain w st1 where ex: "execute ap k vfun env st = Ok (w, st1)"
    and set: "set_name_value name w env st1 = Inr st'" and v: "v = Undefined"
    by (auto split: outcome.splits sum.splits)
  from "3.prems"(3) have e: "expression_fun vfun" by simp
  from "3.IH" [OF "3.prems"(1,2) expression_fun_is_statement_fun [OF e] ex] e
  have "proper_store st1" "proper_value w" by simp_all
  then show ?case
    using set v by (auto simp: proper_result_def dest: set_name_value_proper)
next
  case (4 ap k pfun cfun afun env st)
  from "4.prems"(3) have e: "expression_fun pfun" "expression_fun cfun" "expression_fun afun"
    by simp_all
  from "4.prems"(4) obtain p st1 where ex: "execute ap k pfun env st = Ok (p, st1)"
    and br: "(if is_true p then execute ap k cfun env st1 else execute ap k afun env st1)
               = Ok (v, st')"
    by (auto split: outcome.splits)
  from "4.IH"(1) [OF "4.prems"(1,2) expression_fun_is_statement_fun [OF e(1)] ex]
  have st1: "proper_store st1" by simp
  show ?case
  proof (cases "is_true p")
    case True
    with br have "execute ap k cfun env st1 = Ok (v, st')" by simp
    from "4.IH"(2) [OF ex refl True "4.prems"(1) st1 expression_fun_is_statement_fun [OF e(2)] this]
      e(2)
    show ?thesis by simp
  next
    case False
    with br have "execute ap k afun env st1 = Ok (v, st')" by simp
    from "4.IH"(3) [OF ex refl False "4.prems"(1) st1 expression_fun_is_statement_fun [OF e(3)] this]
      e(3)
    show ?thesis by simp
  qed
next
  case (5 ap k vars locals body_fun env st)
  then show ?case by (auto simp: proper_result_def)
next
  case (6 ap k env st)
  then show ?case by (auto simp: proper_result_def)
next
  case (7 ap k fun1 fun2 env st)
  from "7.prems"(3) have s: "statement_fun fun1" "statement_fun fun2" by simp_all
  from "7.prems"(4) obtain w st1 where ex: "execute ap k fun1 env st = Ok (w, st1)"
    and br: "(if is_return_value w then Ok (w, st1) else execute ap k fun2 env st1) = Ok (v, st')"
    by (auto split: outcome.splits)
  from "7.IH"(1) [OF "7.prems"(1,2) s(1) ex]
  have st1: "proper_store st1" and w: "proper_result w" by simp_all
  show ?case
  proof (cases "is_return_value w")
    case True
    with br st1 w show ?thesis by simp
  next
    case False
    with br have "execute ap k fun2 env st1 = Ok (v, st')" by simp
    from "7.IH"(2) [OF ex refl False "7.prems"(1) st1 s(2) this]
    show ?thesis by simp
  qed
next
  case (8 ap k locals body_func env st)
  from "8.prems"(4) obtain env1 st1 where
    ext: "extend_environment locals (map (\<lambda>x. No_value_yet) locals) env st = Inr (env1, st1)"
    and ex: "execute ap k body_func env1 st1 = Ok (v, st')"
    by (auto split: sum.splits)
  have st1: "proper_store st1"
    using extend_environment_proper [OF "8.prems"(2) sentinels_proper ext] .
  from "8.prems"(3) have "statement_fun body_func" by simp
  from "8.IH" [OF ext refl "8.prems"(1) st1 this ex]
  show ?case by simp
next
  case (9 ap k retval_func env st)
  from "9.prems"(3) have e: "expression_fun retval_func" by simp
  from "9.prems"(4) obtain w where ex: "execute ap k retval_func env st = Ok (w, st')"
    and v: "v = Return_value w"
    by (auto split: outcome.splits)
  from "9.IH" [OF "9.prems"(1,2) expression_fun_is_statement_fun [OF e] ex] e v
  show ?case by (simp add: proper_result_def)
next
  case (10 ap k function_func arg_funcs env st)
  from "10.prems"(3) have e: "expression_fun function_func" "list_all expression_fun arg_funcs"
    by simp_all
  from "10.prems"(4) obtain fv st1 args st2 where
    ex: "execute ap k function_func env st = Ok (fv, st1)"
    and exs: "map_execute ap k arg_funcs env st1 = Ok (args, st2)"
    and app: "execute_application ap k fv args st2 = Ok (v, st')"
    by (auto split: outcome.splits)
  from "10.IH"(1) [OF "10.prems"(1,2) expression_fun_is_statement_fun [OF e(1)] ex] e(1)
  have st1: "proper_store st1" and fv: "proper_value fv" by simp_all
  from "10.IH"(2) [OF ex refl "10.prems"(1) st1 e(2) exs]
  have st2: "proper_store st2" and args: "list_all proper_value args" by simp_all
  from "10.IH"(3) [OF ex refl exs refl "10.prems"(1) st2 fv args app]
  show ?case by (simp add: proper_value_result)
next
  case (11 ap k env st)
  then show ?case by simp
next
  case (12 ap k arg_func arg_funcs env st)
  from "12.prems"(3) have e: "expression_fun arg_func" "list_all expression_fun arg_funcs"
    by simp_all
  from "12.prems"(4) obtain w st1 ws where ex: "execute ap k arg_func env st = Ok (w, st1)"
    and exs: "map_execute ap k arg_funcs env st1 = Ok (ws, st')" and vs: "vs = w # ws"
    by (auto split: outcome.splits)
  from "12.IH"(1) [OF "12.prems"(1,2) expression_fun_is_statement_fun [OF e(1)] ex] e(1)
  have st1: "proper_store st1" and w: "proper_value w" by simp_all
  from "12.IH"(2) [OF ex refl "12.prems"(1) st1 e(2) exs] w vs
  show ?case by simp
next
  case (13 ap k impl args st)
  then show ?case
    by (auto simp: proper_primitives_def split: sum.splits)
next
  case (14 ap k parameters locals body fenv args st)
  from "14.prems"(5) obtain names env1 st1 k' result where
    ins: "insert_all parameters locals = Inr names"
    and ext: "extend_environment names (args @ map (\<lambda>x. No_value_yet) locals) fenv st
                = Inr (env1, st1)"
    and k: "k = Suc k'"
    and ex: "execute ap k' body env1 st1 = Ok (result, st')"
    and v: "v = (case result of Return_value content \<Rightarrow> content | _ \<Rightarrow> Undefined)"
    by (auto split: sum.splits nat.splits outcome.splits val.splits)
  have "list_all proper_value (args @ map (\<lambda>x. No_value_yet) locals)"
    using "14.prems"(4) sentinels_proper by simp
  then have st1: "proper_store st1"
    using extend_environment_proper [OF "14.prems"(2) _ ext] by blast
  from "14.prems"(3) have "statement_fun body" by simp
  from "14.IH" [OF ins ext refl k "14.prems"(1) st1 this ex]
  have "proper_store st'" and "proper_result result" by simp_all
  then show ?case
    unfolding v by (cases result) (simp_all add: proper_result_def)
qed simp_all


text \<open>
  The analysis of a program of the grammar yields executables of the grammar, and the
  global store is proper: the runs of such programs meet the conditions above.
\<close>

lemma loop_statement_fun:
  "statement_fun f \<Longrightarrow> list_all statement_fun fs \<Longrightarrow> statement_fun (loop f fs)"
  by (induction fs arbitrary: f) simp_all

lemma analyze_grammar:
  "statement s \<Longrightarrow> analyze s = Inr f \<Longrightarrow>
     statement_fun f \<and> (expression s \<longrightarrow> expression_fun f)"
  and analyze_sequence_grammar:
    "list_all statement ss \<Longrightarrow> analyze_sequence ss = Inr f \<Longrightarrow> statement_fun f"
  and map_analyze_grammar:
    "list_all statement ss \<Longrightarrow> map_analyze ss = Inr fs \<Longrightarrow>
     list_all statement_fun fs \<and> (list_all expression ss \<longrightarrow> list_all expression_fun fs)"
proof (induction s and ss and ss arbitrary: f and f and fs
    rule: analyze_analyze_sequence_map_analyze.induct)
  case (4 p c a)
  from "4.prems"(1) have e: "expression p" "expression c" "expression a" by simp_all
  from "4.prems"(2) obtain pf cf af where an: "analyze p = Inr pf" "analyze c = Inr cf"
    "analyze a = Inr af" and f: "f = Conditional_fun pf cf af"
    by (auto split: sum.splits)
  from "4.IH"(1) [OF expression_is_statement [OF e(1)] an(1)]
    "4.IH"(2) [OF an(1) expression_is_statement [OF e(2)] an(2)]
    "4.IH"(3) [OF an(1,2) expression_is_statement [OF e(3)] an(3)] e f
  show ?case by simp
next
  case (5 vars body)
  then show ?case by (auto split: sum.splits)
next
  case (7 body)
  then show ?case by (auto split: sum.splits)
next
  case (9 g args)
  from "9.prems"(1) have e: "expression g" "list_all expression args" by simp_all
  then have s: "list_all statement args"
    by (simp add: list_all_iff expression_is_statement)
  from "9.prems"(2) obtain gf afs where an: "analyze g = Inr gf" "map_analyze args = Inr afs"
    and f: "f = Application_fun gf afs"
    by (auto split: sum.splits)
  from "9.IH"(1) [OF expression_is_statement [OF e(1)] an(1)] "9.IH"(2) [OF an(1) s an(2)] e f
  show ?case by simp
next
  case (11 stmts)
  then show ?case
    by (auto split: sum.splits list.splits intro: loop_statement_fun)
next
  case (13 s stmts)
  then show ?case
    by (auto split: sum.splits)
qed (auto split: sum.splits simp: expression_is_statement)

lemma setup_environment_proper:
  "setup_environment math_PI = Inr (env, st) \<Longrightarrow> proper_store st"
  by (auto simp: setup_environment_frame proper_store_def primitive_functions_def)

lemma toplevel_run_proper:
  assumes "statement program" and "proper_primitives ap"
    and "setup_environment math_PI = Inr (genv, gst)"
    and "analyze (Block program) = Inr f"
    and "execute ap k f genv gst = Ok (v, st1)"
  shows "proper_store st1 \<and> proper_result v"
proof -
  have "statement (Block program)"
    using assms(1) by simp
  from analyze_grammar [OF this assms(4)] have "statement_fun f" by simp
  from execute_proper [OF assms(2) setup_environment_proper [OF assms(3)] this assms(5)]
  show ?thesis by simp
qed

text \<open>
  Outside the grammar a marker can be nested: the operand of a return statement is
  analysed like any node, so the tree \<^verbatim>\<open>return (return 1)\<close>, which no program text
  parses to, yields a marker around a marker. The conditions on the grammar below are
  needed.
\<close>

lemma return_of_return_outside_grammar:
  "\<not> statement (Return_statement (Return_statement (Self_evaluating (Num_lit (1::int))))) \<and>
   evaluate (\<lambda>impl args. Inl Host_error) 1
     (Application (Function_definition []
        (Return_statement (Return_statement (Self_evaluating (Num_lit (1::int)))))) []) [] []
     = Ok (Return_value (Lit (Num_lit 1)), [([], [])])"
  by (simp add: evaluate_def extend_environment_def)



section \<open>Frames keep as many values as names\<close>

lemma scan_set_length:
  "scan_set name val names vals = Inr vs \<Longrightarrow> length vs = length vals"
  by (induction name val names vals arbitrary: vs rule: scan_set.induct)
     (auto split: if_splits sum.splits)

lemma set_name_value_frames_ok:
  assumes "frames_ok st" and "set_name_value name val env st = Inr st1"
  shows "frames_ok st1"
proof -
  from assms(2) obtain a enclosing vs where a: "a < length st"
    and sc: "scan_set name val (fst (st ! a)) (snd (st ! a)) = Inr vs"
    and st1: "st1 = st[a := (fst (st ! a), vs)]"
    by (auto simp: set_name_value_def split: list.splits if_splits sum.splits)
  have "length vs = length (fst (st ! a))"
    using scan_set_length [OF sc] assms(1) a by (simp add: frames_ok_def list_all_length)
  moreover have "set (st[a := (fst (st ! a), vs)]) \<subseteq> insert (fst (st ! a), vs) (set st)"
    by (rule set_update_subset_insert)
  ultimately show ?thesis
    using assms(1) unfolding st1 frames_ok_def list_all_iff by auto
qed

lemma extend_environment_frames_ok:
  "frames_ok st \<Longrightarrow> extend_environment names vals base_env st = Inr (env1, st1) \<Longrightarrow> frames_ok st1"
  by (auto simp: extend_environment_def frames_ok_def split: if_splits)

lemma execute_frames_ok:
  "frames_ok st \<Longrightarrow> execute ap k f env st = Ok (v, st') \<Longrightarrow> frames_ok st'"
  and map_execute_frames_ok:
  "frames_ok st \<Longrightarrow> map_execute ap k fs env st = Ok (vs, st') \<Longrightarrow> frames_ok st'"
  and execute_application_frames_ok:
  "frames_ok st \<Longrightarrow> execute_application ap k fv args st = Ok (v, st') \<Longrightarrow> frames_ok st'"
proof (induction ap k f env st and ap k fs env st and ap k fv args st
    arbitrary: v st' and vs st' and v st'
    rule: execute_map_execute_execute_application.induct)
  case (1 ap k l env st)
  then show ?case by simp
next
  case (2 ap k x env st)
  then show ?case by (simp split: sum.splits)
next
  case (3 ap k name vfun env st)
  from "3.prems"(2) obtain w st1 where ex: "execute ap k vfun env st = Ok (w, st1)"
    and set: "set_name_value name w env st1 = Inr st'"
    by (auto split: outcome.splits sum.splits)
  from set_name_value_frames_ok [OF "3.IH" [OF "3.prems"(1) ex] set]
  show ?case .
next
  case (4 ap k pfun cfun afun env st)
  from "4.prems"(2) obtain p st1 where ex: "execute ap k pfun env st = Ok (p, st1)"
    and br: "(if is_true p then execute ap k cfun env st1 else execute ap k afun env st1)
               = Ok (v, st')"
    by (auto split: outcome.splits)
  note st1 = "4.IH"(1) [OF "4.prems"(1) ex]
  show ?case
  proof (cases "is_true p")
    case True
    with br have "execute ap k cfun env st1 = Ok (v, st')" by simp
    from "4.IH"(2) [OF ex refl True st1 this] show ?thesis .
  next
    case False
    with br have "execute ap k afun env st1 = Ok (v, st')" by simp
    from "4.IH"(3) [OF ex refl False st1 this] show ?thesis .
  qed
next
  case (5 ap k vars locals body_fun env st)
  then show ?case by simp
next
  case (6 ap k env st)
  then show ?case by simp
next
  case (7 ap k fun1 fun2 env st)
  from "7.prems"(2) obtain w st1 where ex: "execute ap k fun1 env st = Ok (w, st1)"
    and br: "(if is_return_value w then Ok (w, st1) else execute ap k fun2 env st1) = Ok (v, st')"
    by (auto split: outcome.splits)
  note st1 = "7.IH"(1) [OF "7.prems"(1) ex]
  show ?case
  proof (cases "is_return_value w")
    case True
    with br st1 show ?thesis by simp
  next
    case False
    with br have "execute ap k fun2 env st1 = Ok (v, st')" by simp
    from "7.IH"(2) [OF ex refl False st1 this] show ?thesis .
  qed
next
  case (8 ap k locals body_func env st)
  from "8.prems"(2) obtain env1 st1 where
    ext: "extend_environment locals (map (\<lambda>x. No_value_yet) locals) env st = Inr (env1, st1)"
    and ex: "execute ap k body_func env1 st1 = Ok (v, st')"
    by (auto split: sum.splits)
  from "8.IH" [OF ext refl extend_environment_frames_ok [OF "8.prems"(1) ext] ex]
  show ?case .
next
  case (9 ap k retval_func env st)
  from "9.prems"(2) obtain w where "execute ap k retval_func env st = Ok (w, st')"
    by (auto split: outcome.splits)
  from "9.IH" [OF "9.prems"(1) this] show ?case .
next
  case (10 ap k function_func arg_funcs env st)
  from "10.prems"(2) obtain fv st1 args st2 where
    ex: "execute ap k function_func env st = Ok (fv, st1)"
    and exs: "map_execute ap k arg_funcs env st1 = Ok (args, st2)"
    and app: "execute_application ap k fv args st2 = Ok (v, st')"
    by (auto split: outcome.splits)
  note st1 = "10.IH"(1) [OF "10.prems"(1) ex]
  note st2 = "10.IH"(2) [OF ex refl st1 exs]
  from "10.IH"(3) [OF ex refl exs refl st2 app]
  show ?case .
next
  case (11 ap k env st)
  then show ?case by simp
next
  case (12 ap k arg_func arg_funcs env st)
  from "12.prems"(2) obtain w st1 ws where ex: "execute ap k arg_func env st = Ok (w, st1)"
    and exs: "map_execute ap k arg_funcs env st1 = Ok (ws, st')"
    by (auto split: outcome.splits)
  from "12.IH"(2) [OF ex refl "12.IH"(1) [OF "12.prems"(1) ex] exs]
  show ?case .
next
  case (13 ap k impl args st)
  then show ?case by (auto split: sum.splits)
next
  case (14 ap k parameters locals body fenv args st)
  from "14.prems"(2) obtain names env1 st1 k' result where
    ins: "insert_all parameters locals = Inr names"
    and ext: "extend_environment names (args @ map (\<lambda>x. No_value_yet) locals) fenv st
                = Inr (env1, st1)"
    and k: "k = Suc k'"
    and ex: "execute ap k' body env1 st1 = Ok (result, st')"
    by (auto split: sum.splits nat.splits outcome.splits val.splits)
  from "14.IH" [OF ins ext refl k extend_environment_frames_ok [OF "14.prems"(1) ext] ex]
  show ?case .
qed simp_all

lemma setup_environment_frames_ok:
  "setup_environment math_PI = Inr (env, st) \<Longrightarrow> frames_ok st"
  by (auto simp: setup_environment_frame frames_ok_def primitive_functions_def)

end
